theory Spec2Isabelle
  imports Complex_Main "HOL-Library.Sublist"
begin

section \<open>Exceptions\<close>

text \<open>
  The Python exceptions the two source files can raise, as values. A function that can
  raise returns \<open>exn + 'a\<close> with \<open>Inl\<close> for the exception; a function that also changes
  the world returns the result paired with the world it leaves behind, because what was
  written before an exception stays written.
\<close>

datatype exn =
    ValueError string
  | TypeError
  | KeyError string
  | RuntimeError string
  | FetchError string

section \<open>icons.py\<close>

subsection \<open>Strings and paths\<close>

text \<open>
  \<open>str(n)\<close> for a Python integer: the decimal digits, with a leading minus sign for a
  negative number.
\<close>

definition digit_char :: "nat \<Rightarrow> char" where
  "digit_char d = ''0123456789'' ! d"

fun str_nat :: "nat \<Rightarrow> string" where
  "str_nat n = (if n < 10 then [digit_char n] else str_nat (n div 10) @ [digit_char (n mod 10)])"

declare str_nat.simps [simp del]

definition str_int :: "int \<Rightarrow> string" where
  "str_int i = (if i < 0 then CHR ''-'' # str_nat (nat (- i)) else str_nat (nat i))"

text \<open>\<open>sep.join(xs)\<close> on a list of strings.\<close>

fun str_join :: "string \<Rightarrow> string list \<Rightarrow> string" where
  "str_join sep [] = []"
| "str_join sep [x] = x"
| "str_join sep (x # y # ys) = x @ sep @ str_join sep (y # ys)"

text \<open>
  \<open>os.path.join(a, *p)\<close> of \<open>posixpath\<close>: a component that starts with the separator
  replaces what came before; otherwise it is appended, after a separator unless the path
  so far is empty or already ends with one. \<open>os.path.join(*elems)\<close> with no element at
  all is a call without the required first argument, which raises \<open>TypeError\<close>.
\<close>

definition join2 :: "string \<Rightarrow> string \<Rightarrow> string" where
  "join2 path b =
     (if b \<noteq> [] \<and> hd b = CHR ''/'' then b
      else if path = [] \<or> last path = CHR ''/'' then path @ b
      else path @ ''/'' @ b)"

definition path_join :: "string \<Rightarrow> string list \<Rightarrow> string" where
  "path_join a p = foldl join2 a p"

definition path_join_star :: "string list \<Rightarrow> exn + string" where
  "path_join_star elems =
     (case elems of [] \<Rightarrow> Inl TypeError | a # p \<Rightarrow> Inr (path_join a p))"

text \<open>
  \<open>os.path.dirname(p)\<close> of \<open>posixpath\<close>: everything up to and including the last
  separator, with the trailing separators stripped unless nothing else is left.
\<close>

fun rstrip_sep :: "string \<Rightarrow> string" where
  "rstrip_sep s = rev (dropWhile (\<lambda>c. c = CHR ''/'') (rev s))"

definition dirname :: "string \<Rightarrow> string" where
  "dirname p =
     (let head = rev (dropWhile (\<lambda>c. c \<noteq> CHR ''/'') (rev p))
      in if head \<noteq> [] \<and> \<not> list_all (\<lambda>c. c = CHR ''/'') head then rstrip_sep head else head)"

subsection \<open>The icon cache on disk\<close>

text \<open>
  What the code can observe of the filesystem: which paths hold a regular file (and the
  image in it), which paths are directories, and how often the renderer has run. A
  path is the string the code passes to \<open>os\<close>; two spellings of one location are two
  paths here. Filesystem calls are taken to succeed (no permission or disk failure).
\<close>

record 'img filesystem =
  files :: "string \<rightharpoonup> 'img"
  dirs :: "string set"
  renders :: nat

definition exists_path :: "'img filesystem \<Rightarrow> string \<Rightarrow> bool" where
  "exists_path fs p = (files fs p \<noteq> None \<or> p \<in> dirs fs)"

text \<open>
  \<open>os.makedirs(d)\<close>: the directory \<open>d\<close> and every ancestor of it (each prefix of \<open>d\<close>
  that a separator follows) are directories afterwards.
\<close>

definition ancestors :: "string \<Rightarrow> string list" where
  "ancestors d = [take i d. i \<leftarrow> [1 ..< length d], d ! i = CHR ''/'']"

definition makedirs :: "string \<Rightarrow> 'img filesystem \<Rightarrow> 'img filesystem" where
  "makedirs d fs = fs\<lparr>dirs := dirs fs \<union> set (ancestors d) \<union> {d}\<rparr>"

text \<open>
  \<open>_write_image(template, outfile, colour)\<close> hands the work to Cocoa, which is not
  part of the repository. Its docstring: a new image is created at \<open>outfile\<close> with the
  opaque parts of \<open>template\<close> replaced with \<open>colour\<close>. The renderer is the parameter
  \<open>render\<close>; each call is counted.
\<close>

definition write_image ::
  "(string \<Rightarrow> 'c list \<Rightarrow> 'img) \<Rightarrow> string \<Rightarrow> string \<Rightarrow> 'c list \<Rightarrow> 'img filesystem \<Rightarrow> 'img filesystem"
where
  "write_image render template outfile colour fs =
     fs\<lparr>files := (files fs)(outfile \<mapsto> render template colour), renders := Suc (renders fs)\<rparr>"

subsection \<open>class Icons\<close>

text \<open>
  The attributes set by \<open>Icons.__init__(dirpath, default='icon.png', template='icon.png')\<close>.
  The attribute \<open>default\<close> is the field \<open>default_icon\<close>; the constructor accepts
  any value for it, \<open>None\<close> and the empty string included. For the template \<open>None\<close> and
  the empty string behave alike (both end in \<open>ValueError\<close>), so it is a string.
\<close>

record icons =
  dirpath :: string
  default_icon :: "string option"
  template :: string

definition Icons :: "string \<Rightarrow> icons" where
  "Icons d = \<lparr>dirpath = d, default_icon = Some ''icon.png'', template = ''icon.png''\<rparr>"

text \<open>
  \<open>x or y\<close> on an optional string argument: \<open>None\<close> and the empty string are falsy.
  \<open>or_else\<close> is the case where \<open>y\<close> is a string, \<open>or_default\<close> the case where
  \<open>y\<close> may itself be \<open>None\<close>.
\<close>

definition or_else :: "string option \<Rightarrow> string \<Rightarrow> string" where
  "or_else x y = (case x of None \<Rightarrow> y | Some s \<Rightarrow> if s = [] then y else s)"

definition or_default :: "string option \<Rightarrow> string option \<Rightarrow> string option" where
  "or_default x y = (case x of None \<Rightarrow> y | Some s \<Rightarrow> if s = [] then y else Some s)"

text \<open>
  \<open>elems = [str(hash(n)) for n in colour]\<close>. Python's builtin \<open>hash\<close> is the
  parameter \<open>hash\<close>; a colour is the sequence of its components.
\<close>

definition elems_of :: "('c \<Rightarrow> int) \<Rightarrow> 'c list \<Rightarrow> string list" where
  "elems_of hash colour = map (\<lambda>n. str_int (hash n)) colour"

definition icon_path :: "('c \<Rightarrow> int) \<Rightarrow> icons \<Rightarrow> 'c list \<Rightarrow> exn + string" where
  "icon_path hash self colour =
     (let elems = elems_of hash colour;
          filename = str_join ''-'' elems @ ''.png''
      in case path_join_star elems of
           Inl e \<Rightarrow> Inl e
         | Inr dname \<Rightarrow> Inr (path_join (dirpath self) [dname, filename]))"

definition cache_path :: "('c \<Rightarrow> int) \<Rightarrow> 'c list \<Rightarrow> exn + string" where
  "cache_path hash colour =
     (let elems = elems_of hash colour;
          filename = str_join ''-'' elems @ ''.png''
      in case path_join_star elems of
           Inl e \<Rightarrow> Inl e
         | Inr dname \<Rightarrow> Inr (path_join dname [filename]))"

text \<open>
  \<open>get_icon\<close> returns a path, or \<open>None\<close> when the default in effect is \<open>None\<close>.
\<close>

definition get_icon ::
  "('c \<Rightarrow> int) \<Rightarrow> icons \<Rightarrow> 'c list \<Rightarrow> string option \<Rightarrow> 'img filesystem
     \<Rightarrow> (exn + string option) \<times> 'img filesystem"
where
  "get_icon hash self colour dflt fs =
     (let d = or_default dflt (default_icon self)
      in case icon_path hash self colour of
           Inl e \<Rightarrow> (Inl e, fs)
         | Inr path \<Rightarrow> (Inr (if exists_path fs path then Some path else d), fs))"

definition create_icon ::
  "('c \<Rightarrow> int) \<Rightarrow> (string \<Rightarrow> 'c list \<Rightarrow> 'img) \<Rightarrow> icons \<Rightarrow> 'c list \<Rightarrow> string option
     \<Rightarrow> 'img filesystem \<Rightarrow> (exn + string) \<times> 'img filesystem"
where
  "create_icon hash render self colour tmpl fs =
     (let t = or_else tmpl (template self)
      in if t = [] then (Inl (ValueError ''no template specified''), fs)
         else case icon_path hash self colour of
           Inl e \<Rightarrow> (Inl e, fs)
         | Inr path \<Rightarrow>
             if exists_path fs path then (Inr path, fs)
             else
               let dname = dirname path;
                   fs1 = (if \<not> exists_path fs dname then makedirs dname fs else fs)
               in (Inr path, write_image render t path colour fs1))"

section \<open>video-conferences.py\<close>

subsection \<open>Configuration and data\<close>

text \<open>
  A compiled pattern is what \<open>rx.search(s)\<close> does with it: \<open>None\<close> when nothing in
  \<open>s\<close> matches, otherwise the matched text \<open>m.group(0)\<close>. A match object is truthy
  also when the matched text is empty.
\<close>

type_synonym regex = "string \<Rightarrow> string option"

text \<open>
  The module globals that \<open>load_config\<close> fills from the environment, as one value.
\<close>

record config =
  MAX_CACHE_AGE :: int
  LOOKAHEAD_DAYS :: int
  ACCOUNTS :: "string set"
  CALENDARS :: "string set"
  REGEXES :: "regex list"

text \<open>
  An event as \<open>load_events\<close> returns it: the keys the script reads, with the two dates
  already parsed. A date is a number of seconds on the local clock; the key \<open>notes\<close> is
  the field \<open>notes'\<close>.
\<close>

record 'c event =
  title :: string
  start_date :: int
  end_date :: int
  account :: string
  calendar :: string
  url :: string
  location :: string
  notes' :: string
  colour :: "'c list"
  uid :: string

text \<open>
  The dictionary parsed from the output of \<open>CalendarEvents.scpt\<close>: either key may be
  missing.
\<close>

record 'c dataset =
  events :: "'c event list option"
  error :: "string option"

text \<open>
  An item of the Script Filter feedback (\<open>wf.add_item\<close>). \<open>ICON_INFO\<close> and
  \<open>ICON_WARNING\<close> are constants of the workflow library.
\<close>

datatype icon = NoIcon | ICON_INFO | ICON_WARNING | IconFile string

record item =
  item_title :: string
  item_subtitle :: string
  item_arg :: "string option"
  item_valid :: bool
  item_icon :: icon
  item_vars :: "(string \<times> string) list"

text \<open>
  Everything outside the two files that the script calls and that computes a value:
  Python's \<open>hash\<close>, the Cocoa renderer, the library's fuzzy filter \<open>wf.filter\<close> (already
  given the key \<open>d['title']\<close>), \<open>datetime.strftime\<close>, \<open>wf.cachefile\<close> and
  \<open>sys.argv[0]\<close>.
\<close>

record ('c, 'img) externals =
  ext_hash :: "'c \<Rightarrow> int"
  ext_render :: "string \<Rightarrow> 'c list \<Rightarrow> 'img"
  ext_filter :: "string \<Rightarrow> 'c event list \<Rightarrow> 'c event list"
  ext_strftime :: "string \<Rightarrow> int \<Rightarrow> string"
  ext_cachefile :: "string \<Rightarrow> string"
  ext_argv0 :: string

text \<open>
  The state one run of the script reads and changes: the event cache (the stored
  dataset with the time it was written), the background job \<open>reload\<close> (whether it is
  running, and the argument lists of the jobs started so far), the icon files, the
  external triggers and commands issued, and the workflow object (its items, its
  \<open>rerun\<close> interval in seconds, whether the feedback was sent).
\<close>

record ('c, 'img) world =
  cache :: "('c dataset \<times> int) option"
  running :: bool
  launched :: "string list list"
  disk :: "'img filesystem"
  triggers :: "string list"
  commands :: "string list list"
  items :: "item list"
  rerun :: rat
  sent :: bool

subsection \<open>The workflow library, at its interface\<close>

text \<open>
  The script calls the workflow library (\<open>workflow\<close>, \<open>workflow.background\<close>,
  \<open>workflow.util\<close>), whose code is not among the source files. Each call is modelled
  by what it does to the world. The script keeps one cache entry, named \<open>events\<close>, and
  one job, named \<open>reload\<close>, so the names are left out.
\<close>

text \<open>
  Modelled from the spec: \<open>wf.cache_data\<close>, which is missing. The Event Cache's
  \<open>save\<close> overwrites the single stored dataset and records the current time as its
  freshness timestamp.
\<close>

definition cache_data :: "'c dataset \<Rightarrow> int \<Rightarrow> ('c, 'img) world \<Rightarrow> ('c, 'img) world" where
  "cache_data data now w = w\<lparr>cache := Some (data, now)\<rparr>"

text \<open>
  Modelled from the spec: \<open>wf.cached_data\<close>, which is missing. The Event Cache's
  \<open>load(max_age)\<close> returns the stored dataset if \<open>now - timestamp \<le> max_age\<close>; a
  \<open>max_age\<close> of zero returns whatever is stored regardless of age. The script only
  calls it with \<open>max_age=0\<close>.
\<close>

definition cached_data :: "int \<Rightarrow> int \<Rightarrow> ('c, 'img) world \<Rightarrow> 'c dataset option" where
  "cached_data max_age now w =
     (case cache w of
        None \<Rightarrow> None
      | Some (d, t) \<Rightarrow> if max_age = 0 \<or> now - t \<le> max_age then Some d else None)"

text \<open>
  Modelled from the spec: \<open>wf.cached_data_fresh\<close>, which is missing. The Event
  Cache's \<open>is_fresh(max_age)\<close> is the rule \<open>now - timestamp \<le> max_age\<close> as a boolean;
  nothing stored is not fresh.
\<close>

definition cached_data_fresh :: "int \<Rightarrow> int \<Rightarrow> ('c, 'img) world \<Rightarrow> bool" where
  "cached_data_fresh max_age now w =
     (case cache w of None \<Rightarrow> False | Some (d, t) \<Rightarrow> now - t \<le> max_age)"

text \<open>
  Modelled from the spec: \<open>is_running\<close> of \<open>workflow.background\<close>, which is missing.
  The Refresh Job State is a single named job with the states idle and running.
\<close>

definition is_running :: "('c, 'img) world \<Rightarrow> bool" where
  "is_running w = running w"

text \<open>
  Modelled from the spec: \<open>run_in_background\<close> of \<open>workflow.background\<close>, which is
  missing. At most one instance of the job is active at any time; starting the job while
  one is running is a no-op, otherwise the job is running afterwards. The argument list
  of every job started is recorded.
\<close>

definition run_in_background :: "string list \<Rightarrow> ('c, 'img) world \<Rightarrow> ('c, 'img) world" where
  "run_in_background argv w =
     (if running w then w else w\<lparr>running := True, launched := launched w @ [argv]\<rparr>)"

text \<open>
  Modelled from the spec: \<open>run_trigger\<close> and \<open>run_command\<close> of \<open>workflow.util\<close>,
  which are missing. The completion signal and the reveal-event call are handed to an
  external collaborator; the world records that they were issued.
\<close>

definition run_trigger :: "string \<Rightarrow> ('c, 'img) world \<Rightarrow> ('c, 'img) world" where
  "run_trigger name w = w\<lparr>triggers := triggers w @ [name]\<rparr>"

definition run_command :: "string list \<Rightarrow> ('c, 'img) world \<Rightarrow> ('c, 'img) world" where
  "run_command cmd w = w\<lparr>commands := commands w @ [cmd]\<rparr>"

text \<open>
  Modelled from the spec: \<open>wf.add_item\<close>, \<open>wf.warn_empty\<close> and \<open>wf.send_feedback\<close>,
  which are missing. They build the result list for the interactive UI: \<open>add_item\<close>
  appends an item, \<open>warn_empty\<close> appends a warning item with the given title when the
  list is still empty, \<open>send_feedback\<close> emits the list.
\<close>

definition add_item :: "item \<Rightarrow> ('c, 'img) world \<Rightarrow> ('c, 'img) world" where
  "add_item it w = w\<lparr>items := items w @ [it]\<rparr>"

definition warn_empty :: "string \<Rightarrow> ('c, 'img) world \<Rightarrow> ('c, 'img) world" where
  "warn_empty t w =
     (if items w = [] then
        add_item \<lparr>item_title = t, item_subtitle = [], item_arg = None, item_valid = False,
                  item_icon = ICON_WARNING, item_vars = []\<rparr> w
      else w)"

definition send_feedback :: "('c, 'img) world \<Rightarrow> ('c, 'img) world" where
  "send_feedback w = w\<lparr>sent := True\<rparr>"

subsection \<open>event_filter\<close>

text \<open>
  The two nested loops of \<open>event_filter\<close>: the inner one tries the patterns in order on
  one string, the outer one tries the strings in order; the first match ends both.
\<close>

fun search_regexes :: "regex list \<Rightarrow> string \<Rightarrow> string option" where
  "search_regexes [] s = None"
| "search_regexes (rx # rxs) s =
     (case rx s of Some m \<Rightarrow> Some m | None \<Rightarrow> search_regexes rxs s)"

fun search_candidates :: "regex list \<Rightarrow> string list \<Rightarrow> string option" where
  "search_candidates rxs [] = None"
| "search_candidates rxs (s # ss) =
     (case search_regexes rxs s of Some m \<Rightarrow> Some m | None \<Rightarrow> search_candidates rxs ss)"

text \<open>
  \<open>event_filter\<close> returns \<open>True\<close> or (by falling off the end, or a bare \<open>return\<close>)
  \<open>None\<close>, and it assigns to \<open>event['url']\<close>: the result is the truth value together
  with the event as the call leaves it. \<open>now\<close> is \<open>datetime.now()\<close>.
\<close>

definition event_filter :: "config \<Rightarrow> int \<Rightarrow> 'c event \<Rightarrow> bool \<times> 'c event" where
  "event_filter cfg now event =
     (if end_date event < now then (False, event)
      else if ACCOUNTS cfg \<noteq> {} \<and> account event \<notin> ACCOUNTS cfg then (False, event)
      else if CALENDARS cfg \<noteq> {} \<and> calendar event \<notin> CALENDARS cfg then (False, event)
      else
        case search_candidates (REGEXES cfg) [url event, location event, notes' event] of
          Some m \<Rightarrow> (True, event\<lparr>url := m\<rparr>)
        | None \<Rightarrow> (False, event))"

text \<open>
  \<open>filter(event_filter, events)\<close> of Python 2: the list of the events the function
  accepts, each as the call left it. The clock is read once for the whole list.
\<close>

definition filter_events :: "config \<Rightarrow> int \<Rightarrow> 'c event list \<Rightarrow> 'c event list" where
  "filter_events cfg now evs = map snd (filter fst (map (event_filter cfg now) evs))"

subsection \<open>Refreshing the cache\<close>

text \<open>
  \<open>generate_icons\<close>: one \<open>create_icon\<close> for each distinct colour. Python iterates the
  set in an order of its own; here the colours come in the order of their first
  occurrence.
\<close>

fun create_icons ::
  "('c \<Rightarrow> int) \<Rightarrow> (string \<Rightarrow> 'c list \<Rightarrow> 'img) \<Rightarrow> icons \<Rightarrow> 'c list list \<Rightarrow> 'img filesystem
     \<Rightarrow> (exn + unit) \<times> 'img filesystem"
where
  "create_icons h r ic [] fs = (Inr (), fs)"
| "create_icons h r ic (c # cs) fs =
     (case create_icon h r ic c None fs of
        (Inl e, fs') \<Rightarrow> (Inl e, fs')
      | (Inr p, fs') \<Rightarrow> create_icons h r ic cs fs')"

definition generate_icons ::
  "('c, 'img) externals \<Rightarrow> 'c event list \<Rightarrow> ('c, 'img) world \<Rightarrow> (exn + unit) \<times> ('c, 'img) world"
where
  "generate_icons ext evs w =
     (let ic = Icons (ext_cachefile ext ''icons'');
          colours = remdups (map colour evs)
      in case create_icons (ext_hash ext) (ext_render ext) ic colours (disk w) of
           (r, fs) \<Rightarrow> (r, w\<lparr>disk := fs\<rparr>))"

text \<open>
  \<open>do_reload(notify)\<close>. The outcome of \<open>load_events()\<close> is the parameter \<open>fetched\<close>:
  the parsed dataset, or the exception the call ended with (the external script failed,
  its output was not JSON, a date did not parse). \<open>data.get('error')\<close> only decides
  about a log line. \<open>data.get('events')\<close> is truthy for a list that is present and not
  empty.
\<close>

definition do_reload ::
  "('c, 'img) externals \<Rightarrow> exn + 'c dataset \<Rightarrow> int \<Rightarrow> bool \<Rightarrow> ('c, 'img) world
     \<Rightarrow> (exn + unit) \<times> ('c, 'img) world"
where
  "do_reload ext fetched now notify w =
     (case fetched of
        Inl e \<Rightarrow> (Inl e, w)
      | Inr data \<Rightarrow>
          (let w1 = cache_data data now w;
               r = (case events data of
                      Some (e # es) \<Rightarrow> generate_icons ext (e # es) w1
                    | _ \<Rightarrow> (Inr (), w1))
           in (case r of
                 (Inl e, w2) \<Rightarrow> (Inl e, w2)
               | (Inr u, w2) \<Rightarrow> (Inr (), if notify then run_trigger ''notify'' w2 else w2))))"

definition do_force_reload :: "('c, 'img) externals \<Rightarrow> ('c, 'img) world \<Rightarrow> ('c, 'img) world" where
  "do_force_reload ext w =
     (if \<not> is_running w then run_in_background [ext_argv0 ext, ''--reload'', ''--notify''] w
      else w)"

definition do_show_event :: "string \<Rightarrow> string \<Rightarrow> ('c, 'img) world \<Rightarrow> ('c, 'img) world" where
  "do_show_event calendar_name event_id w =
     run_command [''/usr/bin/osascript'', ''ShowEvent.scpt'', calendar_name, event_id] w"

subsection \<open>main\<close>

text \<open>
  The arguments as \<open>docopt\<close> hands them over, one constructor for each usage pattern of
  the docstring: a search with an optional query, \<open>--reload\<close> with or without
  \<open>--notify\<close>, \<open>--force-reload\<close>, and \<open>--calendar <name> --event <id>\<close>.
\<close>

datatype args =
    Search "string option"
  | Reload bool
  | ForceReload
  | ShowEvent string string

text \<open>
  The two characters outside ASCII in the script's literals, in UTF-8: the en dash of the
  subtitle and the ellipsis of the loading message.
\<close>

definition en_dash :: string where
  "en_dash = [CHR 0xE2, CHR 0x80, CHR 0x93]"

definition ellipsis :: string where
  "ellipsis = [CHR 0xE2, CHR 0x80, CHR 0xA6]"

definition subtitle_of :: "('c, 'img) externals \<Rightarrow> 'c event \<Rightarrow> string" where
  "subtitle_of ext d =
     ext_strftime ext ''%H:%M'' (start_date d) @ en_dash @
     ext_strftime ext ''%H:%M'' (end_date d) @ '' on '' @
     ext_strftime ext ''%Y-%m-%d'' (start_date d) @ '' // '' @
     calendar d @ '' ('' @ account d @ '')''"

text \<open>The \<open>icon\<close> argument of \<open>add_item\<close>: a path, or \<open>None\<close> for no icon.\<close>

fun icon_of :: "string option \<Rightarrow> icon" where
  "icon_of None = NoIcon"
| "icon_of (Some p) = IconFile p"

text \<open>
  The loop over the surviving events: the icon is looked up first (it is an argument of
  \<open>add_item\<close>), then the item is added and its two variables are set.
\<close>

fun add_event_items ::
  "('c, 'img) externals \<Rightarrow> icons \<Rightarrow> 'c event list \<Rightarrow> ('c, 'img) world
     \<Rightarrow> (exn + unit) \<times> ('c, 'img) world"
where
  "add_event_items ext ic [] w = (Inr (), w)"
| "add_event_items ext ic (d # ds) w =
     (case get_icon (ext_hash ext) ic (colour d) None (disk w) of
        (Inl e, fs) \<Rightarrow> (Inl e, w\<lparr>disk := fs\<rparr>)
      | (Inr p, fs) \<Rightarrow>
          add_event_items ext ic ds
            (add_item \<lparr>item_title = title d, item_subtitle = subtitle_of ext d,
                       item_arg = Some (url d), item_valid = True, item_icon = icon_of p,
                       item_vars = [(''calendar_name'', calendar d), (''event_id'', uid d)]\<rparr>
               (w\<lparr>disk := fs\<rparr>)))"

definition reload_item :: item where
  "reload_item =
     \<lparr>item_title = ''Reload Events'',
      item_subtitle = ''Update cached events from Calendar database'',
      item_arg = Some ''reload'', item_valid = True, item_icon = IconFile ''reload.png'',
      item_vars = []\<rparr>"

text \<open>
  The search branch of \<open>main\<close>, from \<open>query = args['<query>'] or u''\<close> to the end.
  A dataset is falsy when it is missing or a dictionary without a key; \<open>no_data\<close>
  names what the branch \<open>if not data\<close> does.
  \<open>data['events']\<close> raises \<open>KeyError\<close> when the key is missing.
\<close>

definition search_events ::
  "('c, 'img) externals \<Rightarrow> config \<Rightarrow> int \<Rightarrow> string \<Rightarrow> ('c, 'img) world
     \<Rightarrow> (exn + unit) \<times> ('c, 'img) world"
where
  "search_events ext cfg now query w =
     (let reloading0 = is_running w;
          start = (\<not> cached_data_fresh (MAX_CACHE_AGE cfg) now w \<and> \<not> reloading0);
          w1 = (if start then run_in_background [ext_argv0 ext, ''--reload''] w else w);
          reloading = (reloading0 \<or> start);
          w2 = (if reloading then w1\<lparr>rerun := 2 / 10\<rparr> else w1);
          no_data =
            (Inr (),
             send_feedback
               (if reloading then
                  add_item \<lparr>item_title = ''Loading Events'' @ ellipsis,
                            item_subtitle = ''Results should appear momentarily'',
                            item_arg = None, item_valid = False, item_icon = ICON_INFO,
                            item_vars = []\<rparr> w2
                else
                  add_item \<lparr>item_title = ''No Data'',
                            item_subtitle = ''Workflow could not load calendar data'',
                            item_arg = None, item_valid = False, item_icon = ICON_WARNING,
                            item_vars = []\<rparr> w2))
      in (case cached_data 0 now w2 of
            None \<Rightarrow> no_data
          | Some data \<Rightarrow>
              if events data = None \<and> error data = None then no_data
              else if or_else (error data) [] \<noteq> [] then
                (Inl (RuntimeError (or_else (error data) [])), w2)
              else
                (case events data of
                   None \<Rightarrow> (Inl (KeyError ''events''), w2)
                 | Some evs \<Rightarrow>
                     (let kept = filter_events cfg now evs;
                          shown = (if query \<noteq> [] then ext_filter ext query kept else kept);
                          ic = Icons (ext_cachefile ext ''icons'')
                      in (case add_event_items ext ic shown w2 of
                            (Inl e, w3) \<Rightarrow> (Inl e, w3)
                          | (Inr u, w3) \<Rightarrow>
                              (let w4 = (if length query > 1 \<and> prefix query ''reload''
                                         then add_item reload_item w3 else w3);
                                   warning = (if query \<noteq> [] then ''No Matching Events''
                                              else ''No Video Conferences'')
                               in (Inr (), send_feedback (warn_empty warning w4))))))))"

text \<open>
  \<open>main(wf)\<close>, with the configuration already loaded. An empty calendar name is
  falsy, and none of the other options is set then, so the run falls through to a
  search without a query.
\<close>

definition main ::
  "('c, 'img) externals \<Rightarrow> config \<Rightarrow> exn + 'c dataset \<Rightarrow> int \<Rightarrow> args \<Rightarrow> ('c, 'img) world
     \<Rightarrow> (exn + unit) \<times> ('c, 'img) world"
where
  "main ext cfg fetched now a w =
     (case a of
        ShowEvent c e \<Rightarrow>
          if c \<noteq> [] then (Inr (), do_show_event c e w) else search_events ext cfg now [] w
      | Reload notify \<Rightarrow> do_reload ext fetched now notify w
      | ForceReload \<Rightarrow> (Inr (), do_force_reload ext w)
      | Search q \<Rightarrow> search_events ext cfg now (or_else q []) w)"

section \<open>A worked example\<close>

text \<open>
  The scenario of the behaviour description, used to evaluate the definitions on concrete
  values: one event \<open>Standup\<close> of the account \<open>Work\<close> whose URL field holds a meeting
  link, the account allow-list \<open>{Work}\<close>, and the single pattern
  \<open>https://meet\.example/\S+\<close>. The pattern is written out as the search it performs:
  the leftmost place where the literal prefix is followed by at least one character that
  is not a blank, and the match up to the next blank.
\<close>

definition meet_rx :: regex where
  "meet_rx s =
     (case List.find (\<lambda>t. prefix ''https://meet.example/'' t
                          \<and> takeWhile (\<lambda>c. c \<noteq> CHR '' '') (drop 21 t) \<noteq> [])
             (rev (suffixes s)) of
        None \<Rightarrow> None
      | Some t \<Rightarrow> Some (''https://meet.example/'' @ takeWhile (\<lambda>c. c \<noteq> CHR '' '') (drop 21 t)))"

text \<open>
  Stand-ins for the external functions: small integers hash to themselves, as they do in
  Python; the rendered image is recorded as the pair of template and colour; the fuzzy
  filter keeps the events whose title starts with the query; a time is printed as its
  number.
\<close>

definition ex_ext :: "(int, string \<times> int list) externals" where
  "ex_ext = \<lparr>ext_hash = id, ext_render = Pair,
             ext_filter = (\<lambda>q. filter (\<lambda>d. prefix q (title d))),
             ext_strftime = (\<lambda>fmt t. str_int t),
             ext_cachefile = (\<lambda>n. ''/cache/'' @ n),
             ext_argv0 = ''video-conferences.py''\<rparr>"

definition ex_cfg :: config where
  "ex_cfg = \<lparr>MAX_CACHE_AGE = 600, LOOKAHEAD_DAYS = 7, ACCOUNTS = {''Work''}, CALENDARS = {},
             REGEXES = [meet_rx]\<rparr>"

definition ex_event :: "int event" where
  "ex_event = \<lparr>title = ''Standup'', start_date = 1000, end_date = 2000, account = ''Work'',
               calendar = ''Team'', url = ''Join at https://meet.example/abc'', location = [],
               notes' = [], colour = [0, 0, 0, 1], uid = ''E1''\<rparr>"

definition ex_data :: "int dataset" where
  "ex_data = \<lparr>events = Some [ex_event], error = None\<rparr>"

definition ex_denied :: "int dataset" where
  "ex_denied = \<lparr>events = None, error = Some ''Calendar access denied''\<rparr>"



definition ex_disk :: "(string \<times> int list) filesystem" where
  "ex_disk = \<lparr>files = Map.empty, dirs = {}, renders = 0\<rparr>"

text \<open>
  Five worlds: a first run with nothing cached; the same while the job \<open>reload\<close> runs;
  one with the example dataset cached at time 0; one with a failed dataset cached at
  time 0; one where the cached dataset has the empty string as its error.
\<close>

definition ex_world :: "(int, string \<times> int list) world" where
  "ex_world = \<lparr>cache = None, running = False, launched = [], disk = ex_disk,
               triggers = [], commands = [], items = [], rerun = 0, sent = False\<rparr>"

definition ex_busy :: "(int, string \<times> int list) world" where
  "ex_busy = ex_world\<lparr>running := True\<rparr>"

definition ex_cached :: "(int, string \<times> int list) world" where
  "ex_cached = ex_world\<lparr>cache := Some (ex_data, 0)\<rparr>"



section \<open>Properties\<close>

subsection \<open>Path derivation\<close>

text \<open>
  What \<open>str\<close> prints for an integer is never empty and holds no path separator, so
  \<open>os.path.join\<close> always appends it after a separator.
\<close>

lemma digit_char_in: "d < 10 \<Longrightarrow> digit_char d \<in> set ''0123456789''"
  unfolding digit_char_def by (rule nth_mem) simp

lemma str_nat_chars: "set (str_nat n) \<subseteq> set ''0123456789''"
proof (induction n rule: str_nat.induct)
  case (1 n)
  show ?case
  proof (cases "n < 10")
    case True
    then show ?thesis using digit_char_in [of n] by (subst str_nat.simps) simp
  next
    case False
    have "n mod 10 < 10" by simp
    then have "digit_char (n mod 10) \<in> set ''0123456789''" by (rule digit_char_in)
    with False 1 show ?thesis by (subst str_nat.simps) simp
  qed
qed

lemma str_nat_nonempty: "str_nat n \<noteq> []"
  by (subst str_nat.simps) simp

lemma str_int_nonempty: "str_int i \<noteq> []"
  by (simp add: str_int_def str_nat_nonempty)

lemma str_nat_no_sep: "CHR ''/'' \<notin> set (str_nat n)"
proof
  assume "CHR ''/'' \<in> set (str_nat n)"
  with str_nat_chars [of n] have "CHR ''/'' \<in> set ''0123456789''" by blast
  then show False by simp
qed

lemma str_int_no_sep: "CHR ''/'' \<notin> set (str_int i)"
  by (simp add: str_int_def str_nat_no_sep)

lemma str_int_hd: "hd (str_int i) \<noteq> CHR ''/''"
proof
  assume h: "hd (str_int i) = CHR ''/''"
  have "hd (str_int i) \<in> set (str_int i)" by (rule hd_in_set) (rule str_int_nonempty)
  with h str_int_no_sep [of i] show False by simp
qed

lemma str_int_last: "last (str_int i) \<noteq> CHR ''/''"
proof
  assume h: "last (str_int i) = CHR ''/''"
  have "last (str_int i) \<in> set (str_int i)" by (rule last_in_set) (rule str_int_nonempty)
  with h str_int_no_sep [of i] show False by simp
qed

lemma join2_str_int:
  assumes "p \<noteq> []" "last p \<noteq> CHR ''/''"
  shows "join2 p (str_int i @ r) = p @ CHR ''/'' # str_int i @ r"
  using assms str_int_nonempty [of i] str_int_hd [of i] by (simp add: join2_def)

lemma join2_str_int0:
  assumes "p \<noteq> []" "last p \<noteq> CHR ''/''"
  shows "join2 p (str_int i) = p @ CHR ''/'' # str_int i"
  using join2_str_int [OF assms, of i "[]"] by simp

lemma join2_root:
  "join2 base (str_int a @ r) =
     (if base = [] \<or> last base = CHR ''/'' then base else base @ ''/'') @ str_int a @ r"
  using str_int_nonempty [of a] str_int_hd [of a] by (simp add: join2_def)

lemmas str_int_simps = str_int_nonempty str_int_last join2_str_int join2_str_int0

lemma dir_of_four:
  "path_join (str_int a) [str_int b, str_int c, str_int d] =
     str_int a @ ''/'' @ str_int b @ ''/'' @ str_int c @ ''/'' @ str_int d"
  by (simp add: path_join_def str_int_simps)

text \<open>
  C7, as the code has it. For a colour of four components, with \<open>s1\<close> to \<open>s4\<close> the
  decimal strings of the components' hashes, the icon path is the root directory, then one
  directory level for each of the four strings, then the file \<open>s1-s2-s3-s4.png\<close>: the
  file name repeats all four strings joined with a hyphen, inside the directory of the
  fourth. The root is followed by a separator unless it is empty or already ends with
  one. \<open>cache_path\<close> is the same path without the root.
\<close>

theorem icon_path_layout:
  fixes hash :: "'c \<Rightarrow> int"
  shows "icon_path hash self [c1, c2, c3, c4] =
      Inr ((if dirpath self = [] \<or> last (dirpath self) = CHR ''/'' then dirpath self
            else dirpath self @ ''/'')
           @ str_int (hash c1) @ ''/'' @ str_int (hash c2) @ ''/'' @ str_int (hash c3) @ ''/''
           @ str_int (hash c4) @ ''/''
           @ str_int (hash c1) @ ''-'' @ str_int (hash c2) @ ''-'' @ str_int (hash c3) @ ''-''
           @ str_int (hash c4) @ ''.png'')
    \<and> cache_path hash [c1, c2, c3, c4] =
      Inr (str_int (hash c1) @ ''/'' @ str_int (hash c2) @ ''/'' @ str_int (hash c3) @ ''/''
           @ str_int (hash c4) @ ''/''
           @ str_int (hash c1) @ ''-'' @ str_int (hash c2) @ ''-'' @ str_int (hash c3) @ ''-''
           @ str_int (hash c4) @ ''.png'')"
proof -
  let ?a = "str_int (hash c1)" and ?b = "str_int (hash c2)"
  let ?c = "str_int (hash c3)" and ?d = "str_int (hash c4)"
  let ?dir = "?a @ ''/'' @ ?b @ ''/'' @ ?c @ ''/'' @ ?d"
  let ?stem = "''-'' @ ?b @ ''-'' @ ?c @ ''-'' @ ?d @ ''.png''"
  let ?pre = "if dirpath self = [] \<or> last (dirpath self) = CHR ''/'' then dirpath self
              else dirpath self @ ''/''"
  have dir: "path_join_star (elems_of hash [c1, c2, c3, c4]) = Inr ?dir"
    by (simp add: path_join_star_def elems_of_def dir_of_four)
  have fname: "str_join ''-'' (elems_of hash [c1, c2, c3, c4]) @ ''.png'' = ?a @ ?stem"
    by (simp add: elems_of_def)
  have j2: "join2 ?dir (?a @ ?stem) = ?dir @ ''/'' @ ?a @ ?stem"
    by (simp add: str_int_simps)
  have j1: "join2 (dirpath self) ?dir = ?pre @ ?dir"
    using join2_root [of "dirpath self" "hash c1" "''/'' @ ?b @ ''/'' @ ?c @ ''/'' @ ?d"] by simp
  have j3: "join2 (?pre @ ?dir) (?a @ ?stem) = (?pre @ ?dir) @ ''/'' @ ?a @ ?stem"
    by (rule trans [OF join2_str_int]) (simp_all add: str_int_simps)
  have A: "icon_path hash self [c1, c2, c3, c4] = Inr ((?pre @ ?dir) @ ''/'' @ ?a @ ?stem)"
    unfolding icon_path_def Let_def dir fname by (simp only: path_join_def foldl.simps j1 j3 sum.case)
  have B: "cache_path hash [c1, c2, c3, c4] = Inr (?dir @ ''/'' @ ?a @ ?stem)"
    unfolding cache_path_def Let_def dir fname by (simp only: path_join_def foldl.simps j2 sum.case)
  show ?thesis unfolding A B by simp
qed

text \<open>
  C7, as the claim states it: the path would be \<open>root/s1/s2/s3/s4.png\<close>. For opaque
  black, whose components hash to 0, 0, 0 and 1, under the root \<open>/cache\<close> that is
  \<open>/cache/0/0/0/1.png\<close>, while the code gives \<open>/cache/0/0/0/1/0-0-0-1.png\<close>.
\<close>

theorem icon_path_flat_counterexample:
  "icon_path id (Icons ''/cache'') [0, 0, 0, 1 :: int]
     \<noteq> Inr (path_join ''/cache'' [str_int 0, str_int 0, str_int 0, str_int 1 @ ''.png''])
   \<and> icon_path id (Icons ''/cache'') [0, 0, 0, 1 :: int] = Inr ''/cache/0/0/0/1/0-0-0-1.png''"
  by code_simp

subsection \<open>The icon cache\<close>

lemma icon_path_defined:
  assumes "col \<noteq> []"
  shows "\<exists>p. icon_path h self col = Inr p"
proof -
  from assms obtain c cs where "col = c # cs" by (cases col) auto
  then show ?thesis
    by (simp add: icon_path_def Let_def path_join_star_def elems_of_def)
qed

lemma join2_nonempty: "b \<noteq> [] \<Longrightarrow> join2 p b \<noteq> []"
  by (simp add: join2_def)

lemma icon_path_nonempty:
  assumes "icon_path h self col = Inr p"
  shows "p \<noteq> []"
proof -
  have "join2 x (str_join ''-'' (elems_of h col) @ ''.png'') \<noteq> []" for x
    by (rule join2_nonempty) simp
  with assms show ?thesis
    by (auto simp: icon_path_def Let_def path_join_def split: sum.splits)
qed

lemma exists_after_write: "exists_path (write_image r t p c fs) p"
  by (simp add: exists_path_def write_image_def)

text \<open>
  C5. With a template configured (the argument or the instance's template is not empty)
  and a colour that has a component, \<open>create_icon\<close> returns the derived path and
  something exists at that path afterwards. When it existed before, the call changes
  nothing; when it did not, the call renders once and the file at the path is the
  rendered image. A second call in the state the first one left returns the same path
  and leaves that state as it is: the render count and every file are unchanged.
\<close>

theorem create_icon_idempotent:
  assumes "col \<noteq> []" and "or_else tmpl (template self) \<noteq> []"
  shows "\<exists>p. icon_path h self col = Inr p
     \<and> fst (create_icon h r self col tmpl fs) = Inr p
     \<and> exists_path (snd (create_icon h r self col tmpl fs)) p
     \<and> (exists_path fs p \<longrightarrow> snd (create_icon h r self col tmpl fs) = fs)
     \<and> (\<not> exists_path fs p \<longrightarrow>
           files (snd (create_icon h r self col tmpl fs)) p
             = Some (r (or_else tmpl (template self)) col)
           \<and> renders (snd (create_icon h r self col tmpl fs)) = Suc (renders fs))
     \<and> create_icon h r self col tmpl (snd (create_icon h r self col tmpl fs))
         = (Inr p, snd (create_icon h r self col tmpl fs))
     \<and> renders (snd (create_icon h r self col tmpl fs)) \<le> Suc (renders fs)"
proof -
  from icon_path_defined [OF assms(1)] obtain p where p: "icon_path h self col = Inr p" ..
  let ?fs1 = "snd (create_icon h r self col tmpl fs)"
  have first: "fst (create_icon h r self col tmpl fs) = Inr p"
    using assms(2) p by (simp add: create_icon_def Let_def)
  have ex: "exists_path ?fs1 p"
    using assms(2) p by (simp add: create_icon_def Let_def exists_after_write)
  have kept: "exists_path fs p \<longrightarrow> ?fs1 = fs"
    using assms(2) p by (simp add: create_icon_def Let_def)
  have made: "\<not> exists_path fs p \<longrightarrow>
      files ?fs1 p = Some (r (or_else tmpl (template self)) col)
      \<and> renders ?fs1 = Suc (renders fs)"
    using assms(2) p by (simp add: create_icon_def Let_def write_image_def makedirs_def)
  have second: "create_icon h r self col tmpl ?fs1 = (Inr p, ?fs1)"
    using assms(2) p ex by (simp add: create_icon_def [of h r self col tmpl ?fs1] Let_def)
  have count: "renders ?fs1 \<le> Suc (renders fs)"
    using assms(2) p by (simp add: create_icon_def Let_def write_image_def makedirs_def)
  show ?thesis
    by (rule exI [of _ p]) (intro conjI p first ex kept made second count)
qed

theorem create_icon_idempotent_witness:
  "[0, 0, 0, 1 :: int] \<noteq> [] \<and> or_else None (template (Icons ''/cache/icons'')) \<noteq> []
   \<and> \<not> exists_path ex_disk ''/cache/icons/0/0/0/1/0-0-0-1.png''
   \<and> fst (create_icon id Pair (Icons ''/cache/icons'') [0, 0, 0, 1 :: int] None ex_disk) = Inr ''/cache/icons/0/0/0/1/0-0-0-1.png''
   \<and> exists_path (snd (create_icon id Pair (Icons ''/cache/icons'') [0, 0, 0, 1 :: int] None ex_disk)) ''/cache/icons/0/0/0/1/0-0-0-1.png''
   \<and> renders (snd (create_icon id Pair (Icons ''/cache/icons'') [0, 0, 0, 1 :: int] None ex_disk)) = Suc (renders ex_disk)
   \<and> create_icon id Pair (Icons ''/cache/icons'') [0, 0, 0, 1 :: int] None (snd (create_icon id Pair (Icons ''/cache/icons'') [0, 0, 0, 1 :: int] None ex_disk)) = (Inr ''/cache/icons/0/0/0/1/0-0-0-1.png'', snd (create_icon id Pair (Icons ''/cache/icons'') [0, 0, 0, 1 :: int] None ex_disk))"
proof -
  have c: "[0, 0, 0, 1 :: int] \<noteq> []" by simp
  have t: "or_else None (template (Icons ''/cache/icons'')) \<noteq> []"
    by (simp add: or_else_def Icons_def)
  have p: "icon_path id (Icons ''/cache/icons'') [0, 0, 0, 1 :: int] = Inr ''/cache/icons/0/0/0/1/0-0-0-1.png''"
    by code_simp
  have n: "\<not> exists_path ex_disk ''/cache/icons/0/0/0/1/0-0-0-1.png''"
    by (simp add: exists_path_def ex_disk_def)
  from create_icon_idempotent [OF c t, of id Pair ex_disk]
  obtain q where q: "icon_path id (Icons ''/cache/icons'') [0, 0, 0, 1 :: int] = Inr q"
    and q1: "fst (create_icon id Pair (Icons ''/cache/icons'') [0, 0, 0, 1 :: int] None ex_disk) = Inr q"
    and q2: "exists_path (snd (create_icon id Pair (Icons ''/cache/icons'') [0, 0, 0, 1 :: int] None ex_disk)) q"
    and q3: "\<not> exists_path ex_disk q \<longrightarrow>
           files (snd (create_icon id Pair (Icons ''/cache/icons'') [0, 0, 0, 1 :: int] None ex_disk)) q
             = Some (Pair (or_else None (template (Icons ''/cache/icons''))) [0, 0, 0, 1])
           \<and> renders (snd (create_icon id Pair (Icons ''/cache/icons'') [0, 0, 0, 1 :: int] None ex_disk)) = Suc (renders ex_disk)"
    and q4: "create_icon id Pair (Icons ''/cache/icons'') [0, 0, 0, 1 :: int] None (snd (create_icon id Pair (Icons ''/cache/icons'') [0, 0, 0, 1 :: int] None ex_disk)) = (Inr q, snd (create_icon id Pair (Icons ''/cache/icons'') [0, 0, 0, 1 :: int] None ex_disk))"
    by (elim exE conjE)
  from p q have e: "q = ''/cache/icons/0/0/0/1/0-0-0-1.png''" by simp
  from q3 n have r: "renders (snd (create_icon id Pair (Icons ''/cache/icons'') [0, 0, 0, 1 :: int] None ex_disk)) = Suc (renders ex_disk)"
    unfolding e by (simp only: simp_thms)
  from c t n q1 [unfolded e] q2 [unfolded e] r q4 [unfolded e] show ?thesis
    by (intro conjI)
qed

text \<open>
  C6, as the code has it. \<open>get_icon\<close> leaves the filesystem as it found it, whatever
  its arguments. It returns the derived path when something exists at that path. When
  nothing does, it returns the caller's default if that is a string that is not empty,
  and the default of the instance if the caller's is \<open>None\<close> or the empty string.
\<close>

theorem get_icon_reads_only:
  "snd (get_icon h self col dflt fs) = fs
   \<and> (\<forall>p. icon_path h self col = Inr p \<longrightarrow>
         fst (get_icon h self col dflt fs)
           = Inr (if exists_path fs p then Some p else or_default dflt (default_icon self)))
   \<and> (\<forall>d. d \<noteq> [] \<longrightarrow> or_default (Some d) (default_icon self) = Some d)
   \<and> or_default None (default_icon self) = default_icon self
   \<and> or_default (Some []) (default_icon self) = default_icon self"
  by (simp add: get_icon_def Let_def or_default_def split: sum.splits)

theorem get_icon_reads_only_witness:
  "icon_path id (Icons ''/cache/icons'') [0, 0, 0, 1 :: int] = Inr ''/cache/icons/0/0/0/1/0-0-0-1.png''
   \<and> ''other.png'' \<noteq> []
   \<and> \<not> exists_path ex_disk ''/cache/icons/0/0/0/1/0-0-0-1.png''
   \<and> fst (get_icon id (Icons ''/cache/icons'') [0, 0, 0, 1 :: int] (Some ''other.png'') ex_disk) = Inr (Some ''other.png'')
   \<and> snd (get_icon id (Icons ''/cache/icons'') [0, 0, 0, 1 :: int] (Some ''other.png'') ex_disk) = ex_disk"
proof -
  have p: "icon_path id (Icons ''/cache/icons'') [0, 0, 0, 1 :: int] = Inr ''/cache/icons/0/0/0/1/0-0-0-1.png''"
    by code_simp
  have d: "''other.png'' \<noteq> []" by simp
  have n: "\<not> exists_path ex_disk ''/cache/icons/0/0/0/1/0-0-0-1.png''"
    by (simp add: exists_path_def ex_disk_def)
  note g = get_icon_reads_only
    [of id "Icons ''/cache/icons''" "[0, 0, 0, 1]" "Some ''other.png''" ex_disk]
  have s: "snd (get_icon id (Icons ''/cache/icons'') [0, 0, 0, 1 :: int] (Some ''other.png'') ex_disk) = ex_disk"
    by (rule conjunct1 [OF g])
  have o: "or_default (Some ''other.png'') (default_icon (Icons ''/cache/icons''))
      = Some ''other.png''"
    by (rule mp [OF spec [OF conjunct1 [OF conjunct2 [OF conjunct2 [OF g]]]] d])
  have "fst (get_icon id (Icons ''/cache/icons'') [0, 0, 0, 1 :: int] (Some ''other.png'') ex_disk)
       = Inr (if exists_path ex_disk ''/cache/icons/0/0/0/1/0-0-0-1.png'' then Some ''/cache/icons/0/0/0/1/0-0-0-1.png''
              else or_default (Some ''other.png'') (default_icon (Icons ''/cache/icons'')))"
    by (rule mp [OF spec [OF conjunct1 [OF conjunct2 [OF g]]] p])
  then have f: "fst (get_icon id (Icons ''/cache/icons'') [0, 0, 0, 1 :: int] (Some ''other.png'') ex_disk) = Inr (Some ''other.png'')"
    by (simp only: n o if_False)
  from p d n f s show ?thesis by (intro conjI)
qed

text \<open>
  C6, as the claim states it: for every default, the default would come back whenever no
  artifact exists. With the empty string as the default and nothing on disk, the call on
  an instance built without a default returns \<open>icon.png\<close>, not the empty string it was
  given.
\<close>

theorem get_icon_empty_default_counterexample:
  "\<not> exists_path ex_disk ''/cache/icons/0/0/0/1/0-0-0-1.png''
   \<and> icon_path id (Icons ''/cache/icons'') [0, 0, 0, 1 :: int] = Inr ''/cache/icons/0/0/0/1/0-0-0-1.png''
   \<and> fst (get_icon id (Icons ''/cache/icons'') [0, 0, 0, 1 :: int] (Some []) ex_disk) = Inr (Some ''icon.png'')
   \<and> fst (get_icon id (Icons ''/cache/icons'') [0, 0, 0, 1 :: int] (Some []) ex_disk) \<noteq> Inr (Some [])"
  by code_simp

text \<open>
  C9, as the code has it. A default of \<open>None\<close> or of the empty string is the same as
  no default: the call returns what it returns for \<open>None\<close>, that is the derived path
  when something exists there and otherwise the default of the instance, which is
  \<open>icon.png\<close> for an instance built without one. When the instance's default is a
  string that is not empty, the result is neither \<open>None\<close> nor the empty string.
\<close>

theorem get_icon_falsy_default:
  assumes "dflt = None \<or> dflt = Some []"
  shows "get_icon h self col dflt fs = get_icon h self col None fs
     \<and> (\<forall>p. icon_path h self col = Inr p \<longrightarrow>
           fst (get_icon h self col dflt fs)
             = Inr (if exists_path fs p then Some p else default_icon self))
     \<and> (\<forall>s. default_icon self = Some s \<and> s \<noteq> [] \<longrightarrow>
           fst (get_icon h self col dflt fs) \<noteq> Inr None
           \<and> fst (get_icon h self col dflt fs) \<noteq> Inr (Some []))
     \<and> default_icon (Icons dir) = Some ''icon.png''"
proof -
  have d: "or_default dflt (default_icon self) = default_icon self"
    using assms by (auto simp: or_default_def)
  have dn: "or_default None (default_icon self) = default_icon self"
    by (simp add: or_default_def)
  have a: "get_icon h self col dflt fs = get_icon h self col None fs"
    by (simp only: get_icon_def d dn)
  have b: "\<forall>p. icon_path h self col = Inr p \<longrightarrow>
           fst (get_icon h self col dflt fs)
             = Inr (if exists_path fs p then Some p else default_icon self)"
    by (simp add: get_icon_def d)
  have c: "\<forall>s. default_icon self = Some s \<and> s \<noteq> [] \<longrightarrow>
           fst (get_icon h self col dflt fs) \<noteq> Inr None
           \<and> fst (get_icon h self col dflt fs) \<noteq> Inr (Some [])"
  proof (intro allI impI)
    fix s
    assume s: "default_icon self = Some s \<and> s \<noteq> []"
    show "fst (get_icon h self col dflt fs) \<noteq> Inr None
           \<and> fst (get_icon h self col dflt fs) \<noteq> Inr (Some [])"
    proof (cases "icon_path h self col")
      case (Inl e)
      then show ?thesis by (simp add: get_icon_def)
    next
      case (Inr p)
      from b Inr have "fst (get_icon h self col dflt fs)
          = Inr (if exists_path fs p then Some p else default_icon self)" by simp
      with icon_path_nonempty [OF Inr] s show ?thesis by simp
    qed
  qed
  have i: "default_icon (Icons dir) = Some ''icon.png''" by (simp add: Icons_def)
  show ?thesis by (intro conjI a b c i)
qed

theorem get_icon_falsy_default_witness:
  "(Some [] = None \<or> Some [] = Some ([] :: string))
   \<and> default_icon (Icons ''/cache/icons'') = Some ''icon.png'' \<and> ''icon.png'' \<noteq> []
   \<and> \<not> exists_path ex_disk ''/cache/icons/0/0/0/1/0-0-0-1.png''
   \<and> fst (get_icon id (Icons ''/cache/icons'') [0, 0, 0, 1 :: int] (Some []) ex_disk) = Inr (Some ''icon.png'')
   \<and> get_icon id (Icons ''/cache/icons'') [0, 0, 0, 1 :: int] (Some []) ex_disk = get_icon id (Icons ''/cache/icons'') [0, 0, 0, 1 :: int] None ex_disk"
proof -
  have f: "Some [] = None \<or> Some [] = Some ([] :: string)" by simp
  have i: "default_icon (Icons ''/cache/icons'') = Some ''icon.png''" by (simp add: Icons_def)
  have e: "''icon.png'' \<noteq> []" by simp
  have p: "icon_path id (Icons ''/cache/icons'') [0, 0, 0, 1 :: int] = Inr ''/cache/icons/0/0/0/1/0-0-0-1.png''"
    by code_simp
  have n: "\<not> exists_path ex_disk ''/cache/icons/0/0/0/1/0-0-0-1.png''"
    by (simp add: exists_path_def ex_disk_def)
  note g = get_icon_falsy_default [OF f, of id "Icons ''/cache/icons''" "[0, 0, 0, 1]" ex_disk]
  have s: "get_icon id (Icons ''/cache/icons'') [0, 0, 0, 1 :: int] (Some []) ex_disk = get_icon id (Icons ''/cache/icons'') [0, 0, 0, 1 :: int] None ex_disk"
    by (rule conjunct1 [OF g])
  have "fst (get_icon id (Icons ''/cache/icons'') [0, 0, 0, 1 :: int] (Some []) ex_disk)
       = Inr (if exists_path ex_disk ''/cache/icons/0/0/0/1/0-0-0-1.png'' then Some ''/cache/icons/0/0/0/1/0-0-0-1.png''
              else default_icon (Icons ''/cache/icons''))"
    by (rule mp [OF spec [OF conjunct1 [OF conjunct2 [OF g]]] p])
  then have r: "fst (get_icon id (Icons ''/cache/icons'') [0, 0, 0, 1 :: int] (Some []) ex_disk) = Inr (Some ''icon.png'')"
    by (simp only: n i if_False)
  from f i e n r s show ?thesis by (intro conjI)
qed

text \<open>
  C9, as the claim states it: a falsy value passed as the default would never come back.
  On an instance built with the empty string as its default, the empty string passed as
  the default comes back; on one built with \<open>None\<close>, \<open>None\<close> comes back.
\<close>

theorem get_icon_blank_instance_counterexample:
  "fst (get_icon id ((Icons ''/cache/icons'')\<lparr>default_icon := Some []\<rparr>) [0, 0, 0, 1 :: int]
         (Some []) ex_disk) = Inr (Some [])
   \<and> fst (get_icon id ((Icons ''/cache/icons'')\<lparr>default_icon := None\<rparr>) [0, 0, 0, 1 :: int]
         None ex_disk) = Inr None"
  by code_simp

subsection \<open>The event filter\<close>

lemma search_regexes_None: "search_regexes rxs s = None \<longleftrightarrow> (\<forall>rx\<in>set rxs. rx s = None)"
  by (induction rxs) (auto split: option.splits)

lemma search_regexes_Some:
  "search_regexes rxs s = Some m \<Longrightarrow>
     \<exists>j<length rxs. (rxs ! j) s = Some m \<and> (\<forall>j'<j. (rxs ! j') s = None)"
proof (induction rxs)
  case Nil
  then show ?case by simp
next
  case (Cons rx rxs)
  show ?case
  proof (cases "rx s")
    case None
    with Cons obtain j where j: "j < length rxs" "(rxs ! j) s = Some m"
      "\<forall>j'<j. (rxs ! j') s = None" by auto
    have "\<forall>j'<Suc j. ((rx # rxs) ! j') s = None"
      using None j(3) by (auto simp: nth_Cons split: nat.splits)
    with j(1,2) show ?thesis by (intro exI [of _ "Suc j"]) simp
  next
    case (Some a)
    with Cons.prems have "a = m" by simp
    with Some show ?thesis by (intro exI [of _ 0]) simp
  qed
qed

lemma search_candidates_None:
  "search_candidates rxs ss = None \<longleftrightarrow> (\<forall>s\<in>set ss. \<forall>rx\<in>set rxs. rx s = None)"
proof (induction ss)
  case Nil
  show ?case by simp
next
  case (Cons s ss)
  show ?case
  proof (cases "search_regexes rxs s")
    case None
    then have "\<forall>rx\<in>set rxs. rx s = None" by (simp add: search_regexes_None)
    with None Cons.IH show ?thesis by simp
  next
    case (Some m)
    then have "\<not> (\<forall>rx\<in>set rxs. rx s = None)"
      using search_regexes_None [of rxs s] by simp
    with Some show ?thesis by simp
  qed
qed

lemma search_candidates_Some:
  "search_candidates rxs ss = Some m \<Longrightarrow>
     \<exists>i<length ss. \<exists>j<length rxs. (rxs ! j) (ss ! i) = Some m
        \<and> (\<forall>i'<i. \<forall>rx\<in>set rxs. rx (ss ! i') = None)
        \<and> (\<forall>j'<j. (rxs ! j') (ss ! i) = None)"
proof (induction ss)
  case Nil
  then show ?case by simp
next
  case (Cons s ss)
  show ?case
  proof (cases "search_regexes rxs s")
    case None
    with Cons obtain i j where ij: "i < length ss" "j < length rxs"
      "(rxs ! j) (ss ! i) = Some m" "\<forall>i'<i. \<forall>rx\<in>set rxs. rx (ss ! i') = None"
      "\<forall>j'<j. (rxs ! j') (ss ! i) = None" by auto
    have "\<forall>i'<Suc i. \<forall>rx\<in>set rxs. rx ((s # ss) ! i') = None"
      using None ij(4) by (auto simp: nth_Cons search_regexes_None split: nat.splits)
    with ij show ?thesis
      by (intro exI [of _ "Suc i"] conjI exI [of _ j]) simp_all
  next
    case (Some a)
    with Cons.prems have "search_regexes rxs s = Some m" by simp
    from search_regexes_Some [OF this] show ?thesis
      by (intro exI [of _ 0]) simp
  qed
qed



lemma split_ef: "event_filter cfg now e =
      (if \<not> end_date e < now
      \<and> (ACCOUNTS cfg \<noteq> {} \<longrightarrow> account e \<in> ACCOUNTS cfg)
      \<and> (CALENDARS cfg \<noteq> {} \<longrightarrow> calendar e \<in> CALENDARS cfg) then
         (case search_candidates (REGEXES cfg) [url e, location e, notes' e] of
            Some m \<Rightarrow> (True, e\<lparr>url := m\<rparr>) | None \<Rightarrow> (False, e))
       else (False, e))"
  unfolding event_filter_def by auto




lemma search_candidates_matches:
  "(\<exists>s\<in>set ss. \<exists>rx\<in>set rxs. rx s \<noteq> None) \<longleftrightarrow> search_candidates rxs ss \<noteq> None"
  by (simp add: search_candidates_None)

text \<open>
  C4. \<open>event_filter\<close> keeps an event exactly when its end is not before the current
  time, its account is in the account list if that list is not empty, its calendar is in
  the calendar list if that list is not empty, and some pattern matches one of the
  fields url, location, notes. For a kept event the new url is a match \<open>m\<close> found at a
  field \<open>i\<close> (in the order url, location, notes) by a pattern \<open>j\<close> such that no
  pattern matches an earlier field and no earlier pattern matches field \<open>i\<close>.
\<close>

theorem event_filter_keeps_iff:
  "(fst (event_filter cfg now e) \<longleftrightarrow>
      \<not> end_date e < now
      \<and> (ACCOUNTS cfg \<noteq> {} \<longrightarrow> account e \<in> ACCOUNTS cfg)
      \<and> (CALENDARS cfg \<noteq> {} \<longrightarrow> calendar e \<in> CALENDARS cfg)
      \<and> (\<exists>s\<in>set [url e, location e, notes' e]. \<exists>rx\<in>set (REGEXES cfg). rx s \<noteq> None))
   \<and> (fst (event_filter cfg now e) \<longrightarrow>
      (\<exists>i<3. \<exists>j<length (REGEXES cfg).
         (REGEXES cfg ! j) ([url e, location e, notes' e] ! i)
            = Some (url (snd (event_filter cfg now e)))
         \<and> (\<forall>i'<i. \<forall>rx\<in>set (REGEXES cfg). rx ([url e, location e, notes' e] ! i') = None)
         \<and> (\<forall>j'<j. (REGEXES cfg ! j') ([url e, location e, notes' e] ! i) = None)))"
proof -
  let ?cands = "[url e, location e, notes' e]"
  let ?gate = "\<not> end_date e < now
      \<and> (ACCOUNTS cfg \<noteq> {} \<longrightarrow> account e \<in> ACCOUNTS cfg)
      \<and> (CALENDARS cfg \<noteq> {} \<longrightarrow> calendar e \<in> CALENDARS cfg)"
  let ?some = "\<exists>s\<in>set ?cands. \<exists>rx\<in>set (REGEXES cfg). rx s \<noteq> None"
  show ?thesis
  proof (cases "search_candidates (REGEXES cfg) ?cands")
    case None
    have no: "\<not> ?some"
      unfolding search_candidates_matches using None by (simp only: not_not)
    have nf: "\<not> fst (event_filter cfg now e)"
      unfolding split_ef None by simp
    show ?thesis
    proof (intro conjI impI)
      show "fst (event_filter cfg now e) \<longleftrightarrow>
          \<not> end_date e < now
          \<and> (ACCOUNTS cfg \<noteq> {} \<longrightarrow> account e \<in> ACCOUNTS cfg)
          \<and> (CALENDARS cfg \<noteq> {} \<longrightarrow> calendar e \<in> CALENDARS cfg)
          \<and> ?some"
        by (simp only: nf no simp_thms)
    next
      assume "fst (event_filter cfg now e)"
      with nf show "\<exists>i<3. \<exists>j<length (REGEXES cfg).
         (REGEXES cfg ! j) (?cands ! i) = Some (url (snd (event_filter cfg now e)))
         \<and> (\<forall>i'<i. \<forall>rx\<in>set (REGEXES cfg). rx (?cands ! i') = None)
         \<and> (\<forall>j'<j. (REGEXES cfg ! j') (?cands ! i) = None)"
        by contradiction
    qed
  next
    case (Some m)
    have ex: ?some
      unfolding search_candidates_matches using Some by simp
    have keep: "fst (event_filter cfg now e) \<longleftrightarrow> ?gate"
      unfolding split_ef Some by simp
    have u: "url (snd (event_filter cfg now e)) = m" if "fst (event_filter cfg now e)"
    proof -
      have g: ?gate by (rule iffD1 [OF keep that])
      show ?thesis unfolding split_ef Some using g by auto
    qed
    have len: "length ?cands = 3" by simp
    from search_candidates_Some [OF Some, unfolded len]
    have pos: "\<exists>i<3. \<exists>j<length (REGEXES cfg).
         (REGEXES cfg ! j) (?cands ! i) = Some m
         \<and> (\<forall>i'<i. \<forall>rx\<in>set (REGEXES cfg). rx (?cands ! i') = None)
         \<and> (\<forall>j'<j. (REGEXES cfg ! j') (?cands ! i) = None)" .
    show ?thesis
    proof (intro conjI impI)
      show "fst (event_filter cfg now e) \<longleftrightarrow>
          \<not> end_date e < now
          \<and> (ACCOUNTS cfg \<noteq> {} \<longrightarrow> account e \<in> ACCOUNTS cfg)
          \<and> (CALENDARS cfg \<noteq> {} \<longrightarrow> calendar e \<in> CALENDARS cfg)
          \<and> ?some"
        by (simp only: keep ex simp_thms)
    next
      assume "fst (event_filter cfg now e)"
      from u [OF this] pos
      show "\<exists>i<3. \<exists>j<length (REGEXES cfg).
         (REGEXES cfg ! j) (?cands ! i) = Some (url (snd (event_filter cfg now e)))
         \<and> (\<forall>i'<i. \<forall>rx\<in>set (REGEXES cfg). rx (?cands ! i') = None)
         \<and> (\<forall>j'<j. (REGEXES cfg ! j') (?cands ! i) = None)"
        by (simp only:)
    qed
  qed
qed

theorem event_filter_keeps_iff_witness:
  "\<not> end_date ex_event < 1500
   \<and> ACCOUNTS ex_cfg \<noteq> {} \<and> account ex_event \<in> ACCOUNTS ex_cfg
   \<and> CALENDARS ex_cfg = {}
   \<and> (\<exists>s\<in>set [url ex_event, location ex_event, notes' ex_event].
         \<exists>rx\<in>set (REGEXES ex_cfg). rx s \<noteq> None)
   \<and> fst (event_filter ex_cfg 1500 ex_event)
   \<and> url (snd (event_filter ex_cfg 1500 ex_event)) = ''https://meet.example/abc''"
proof -
  have k: "fst (event_filter ex_cfg 1500 ex_event)" by code_simp
  have u: "url (snd (event_filter ex_cfg 1500 ex_event)) = ''https://meet.example/abc''"
    by code_simp
  have acc: "ACCOUNTS ex_cfg \<noteq> {}" by (simp add: ex_cfg_def)
  have cal: "CALENDARS ex_cfg = {}" by (simp add: ex_cfg_def)
  note g = iffD1 [OF conjunct1 [OF event_filter_keeps_iff [of ex_cfg 1500 ex_event]] k]
  have g1: "\<not> end_date ex_event < 1500" by (rule conjunct1 [OF g])
  have g2: "account ex_event \<in> ACCOUNTS ex_cfg"
    by (rule mp [OF conjunct1 [OF conjunct2 [OF g]] acc])
  have g4: "\<exists>s\<in>set [url ex_event, location ex_event, notes' ex_event].
         \<exists>rx\<in>set (REGEXES ex_cfg). rx s \<noteq> None"
    by (rule conjunct2 [OF conjunct2 [OF conjunct2 [OF g]]])
  from g1 acc g2 cal g4 k u show ?thesis by (intro conjI)
qed

text \<open>
  C10. The event \<open>event_filter\<close> leaves behind is its argument with at most the url
  changed, and it is the argument itself whenever the event is rejected, by whichever
  check.
\<close>

theorem event_filter_frame:
  "snd (event_filter cfg now e) = e\<lparr>url := url (snd (event_filter cfg now e))\<rparr>
   \<and> (\<not> fst (event_filter cfg now e) \<longrightarrow> snd (event_filter cfg now e) = e)"
  unfolding split_ef by (simp split: option.splits)

theorem event_filter_frame_witness:
  "\<not> fst (event_filter ex_cfg 3000 ex_event)
   \<and> \<not> fst (event_filter (ex_cfg\<lparr>ACCOUNTS := {''Home''}\<rparr>) 1500 ex_event)
   \<and> snd (event_filter ex_cfg 3000 ex_event) = ex_event
   \<and> snd (event_filter (ex_cfg\<lparr>ACCOUNTS := {''Home''}\<rparr>) 1500 ex_event) = ex_event"
proof -
  have a: "\<not> fst (event_filter ex_cfg 3000 ex_event)" by code_simp
  have b: "\<not> fst (event_filter (ex_cfg\<lparr>ACCOUNTS := {''Home''}\<rparr>) 1500 ex_event)" by code_simp
  from a b event_filter_frame [of ex_cfg 3000 ex_event]
    event_filter_frame [of "ex_cfg\<lparr>ACCOUNTS := {''Home''}\<rparr>" 1500 ex_event]
  show ?thesis by (simp only: simp_thms)
qed

subsection \<open>Refreshing and searching\<close>

lemma generate_icons_cache: "cache (snd (generate_icons ext evs w)) = cache w"
  by (simp add: generate_icons_def Let_def split: prod.splits)

lemma do_reload_cache_any:
  "cache (snd (do_reload ext (Inr data) now notify w)) = Some (data, now)"
proof -
  define r where "r = (case events data of
                      Some (e # es) \<Rightarrow> generate_icons ext (e # es) (cache_data data now w)
                    | _ \<Rightarrow> (Inr (), cache_data data now w))"
  have c: "cache (snd r) = Some (data, now)"
    unfolding r_def
    by (simp add: generate_icons_cache cache_data_def split: option.splits list.splits)
  have d: "do_reload ext (Inr data) now notify w =
      (case r of (Inl e, w2) \<Rightarrow> (Inl e, w2)
               | (Inr u, w2) \<Rightarrow> (Inr (), if notify then run_trigger ''notify'' w2 else w2))"
    by (simp add: do_reload_def Let_def r_def)
  obtain x w2 where r: "r = (x, w2)" by (cases r)
  with c have "cache w2 = Some (data, now)" by simp
  then show ?thesis
    unfolding d r by (cases x) (simp_all add: run_trigger_def)
qed

text \<open>
  C1, as the code has it. A refresh whose fetch returns a dataset stores that dataset and
  the current time in the event cache, whether or not the dataset carries an error, and
  also when the icon generation that follows raises. The cache and everything else stay
  as they were only when the fetch itself raises.
\<close>

theorem do_reload_overwrites_cache:
  "cache (snd (do_reload ext (Inr data) now notify w)) = Some (data, now)
   \<and> do_reload ext (Inl e) now notify w = (Inl e, w)"
  using do_reload_cache_any [of ext data now notify w] by (simp add: do_reload_def)

text \<open>
  C1, as the claim states it: a refresh whose fetch reports an error would leave the
  cached entry and its timestamp alone. With the example dataset cached at time 0, a
  refresh at time 700 that is told access was denied replaces the entry.
\<close>

theorem do_reload_error_counterexample:
  "cache (snd (do_reload ex_ext (Inr ex_denied) 700 False ex_cached)) \<noteq> cache ex_cached
   \<and> cache (snd (do_reload ex_ext (Inr ex_denied) 700 False ex_cached)) = Some (ex_denied, 700)"
  by code_simp

lemma add_event_items_frame:
  "launched (snd (add_event_items ext ic ds w)) = launched w
   \<and> running (snd (add_event_items ext ic ds w)) = running w
   \<and> rerun (snd (add_event_items ext ic ds w)) = rerun w
   \<and> cache (snd (add_event_items ext ic ds w)) = cache w"
proof (induction ds arbitrary: w)
  case Nil
  show ?case by simp
next
  case (Cons d ds)
  show ?case
  proof (cases "get_icon (ext_hash ext) ic (colour d) None (disk w)")
    case (Pair r fs)
    show ?thesis
    proof (cases r)
      case (Inl e)
      with Pair show ?thesis by simp
    next
      case (Inr p)
      with Pair show ?thesis by (simp add: Cons.IH add_item_def)
    qed
  qed
qed

lemma tail_frame:
  "launched (send_feedback w) = launched w \<and> running (send_feedback w) = running w
   \<and> rerun (send_feedback w) = rerun w
   \<and> launched (warn_empty t w) = launched w \<and> running (warn_empty t w) = running w
   \<and> rerun (warn_empty t w) = rerun w
   \<and> launched (add_item it w) = launched w \<and> running (add_item it w) = running w
   \<and> rerun (add_item it w) = rerun w"
  by (simp add: send_feedback_def warn_empty_def add_item_def)

lemma search_events_decision:
  "launched (snd (search_events ext cfg now q w)) =
           (if \<not> cached_data_fresh (MAX_CACHE_AGE cfg) now w \<and> \<not> running w
            then launched w @ [ [ext_argv0 ext, ''--reload''] ]
            else launched w)
   \<and> running (snd (search_events ext cfg now q w)) =
           (running w \<or> \<not> cached_data_fresh (MAX_CACHE_AGE cfg) now w)
   \<and> rerun (snd (search_events ext cfg now q w)) =
           (if running w \<or> \<not> cached_data_fresh (MAX_CACHE_AGE cfg) now w then 2 / 10
            else rerun w)"
proof -
  let ?ic = "Icons (ext_cachefile ext ''icons'')"
  let ?start = "\<not> cached_data_fresh (MAX_CACHE_AGE cfg) now w \<and> \<not> is_running w"
  let ?w1 = "if ?start then run_in_background [ext_argv0 ext, ''--reload''] w else w"
  define w2 where "w2 = (if is_running w \<or> ?start then ?w1\<lparr>rerun := 2 / 10\<rparr> else ?w1)"
  have ae: "\<And>ds x w3. add_event_items ext ?ic ds w2 = (x, w3) \<Longrightarrow>
      launched w3 = launched w2 \<and> running w3 = running w2 \<and> rerun w3 = rerun w2"
    using add_event_items_frame [of ext ?ic _ w2] by (metis snd_conv)
  have frame: "launched (snd (search_events ext cfg now q w)) = launched w2
      \<and> running (snd (search_events ext cfg now q w)) = running w2
      \<and> rerun (snd (search_events ext cfg now q w)) = rerun w2"
    unfolding search_events_def Let_def w2_def [symmetric]
    by (auto simp: tail_frame split: option.splits sum.splits prod.splits dest!: ae)
  have w2: "launched w2 = (if \<not> cached_data_fresh (MAX_CACHE_AGE cfg) now w \<and> \<not> running w
            then launched w @ [ [ext_argv0 ext, ''--reload''] ] else launched w)
      \<and> running w2 = (running w \<or> \<not> cached_data_fresh (MAX_CACHE_AGE cfg) now w)
      \<and> rerun w2 = (if running w \<or> \<not> cached_data_fresh (MAX_CACHE_AGE cfg) now w then 2 / 10
            else rerun w)"
    by (simp add: w2_def is_running_def run_in_background_def)
  show ?thesis using frame w2 by simp
qed

text \<open>
  C2. A search whose cached events are not fresh while no job runs starts one background
  job, with the arguments \<open>--reload\<close>, and sets the rerun interval; a search while the
  job runs starts nothing and sets the rerun interval; a search on a fresh cache with no
  job running starts nothing and leaves the rerun interval as the new workflow object has
  it. An empty cache is never fresh.
\<close>

theorem search_starts_one_refresh:
  "(\<not> cached_data_fresh (MAX_CACHE_AGE cfg) now w \<and> \<not> is_running w \<longrightarrow>
      launched (snd (main ext cfg fetched now (Search q) w))
        = launched w @ [ [ext_argv0 ext, ''--reload''] ]
      \<and> is_running (snd (main ext cfg fetched now (Search q) w))
      \<and> rerun (snd (main ext cfg fetched now (Search q) w)) = 2 / 10)
   \<and> (is_running w \<longrightarrow>
      launched (snd (main ext cfg fetched now (Search q) w)) = launched w
      \<and> is_running (snd (main ext cfg fetched now (Search q) w))
      \<and> rerun (snd (main ext cfg fetched now (Search q) w)) = 2 / 10)
   \<and> (cached_data_fresh (MAX_CACHE_AGE cfg) now w \<and> \<not> is_running w \<longrightarrow>
      launched (snd (main ext cfg fetched now (Search q) w)) = launched w
      \<and> \<not> is_running (snd (main ext cfg fetched now (Search q) w))
      \<and> rerun (snd (main ext cfg fetched now (Search q) w)) = rerun w)
   \<and> (cache w = None \<longrightarrow> \<not> cached_data_fresh (MAX_CACHE_AGE cfg) now w)"
  using search_events_decision [of ext cfg now "or_else q []" w]
  by (simp add: main_def is_running_def cached_data_fresh_def)

theorem search_starts_one_refresh_witness:
  "(\<not> cached_data_fresh (MAX_CACHE_AGE ex_cfg) 601 ex_world \<and> \<not> is_running ex_world
      \<and> launched (snd (main ex_ext ex_cfg (Inr ex_data) 601 (Search None) ex_world))
          = [ [''video-conferences.py'', ''--reload''] ]
      \<and> rerun (snd (main ex_ext ex_cfg (Inr ex_data) 601 (Search None) ex_world)) = 2 / 10)
   \<and> (is_running ex_busy
      \<and> launched (snd (main ex_ext ex_cfg (Inr ex_data) 601 (Search None) ex_busy)) = []
      \<and> rerun (snd (main ex_ext ex_cfg (Inr ex_data) 601 (Search None) ex_busy)) = 2 / 10)
   \<and> (cached_data_fresh (MAX_CACHE_AGE ex_cfg) 100 ex_cached \<and> \<not> is_running ex_cached
      \<and> launched (snd (main ex_ext ex_cfg (Inr ex_data) 100 (Search None) ex_cached)) = []
      \<and> rerun (snd (main ex_ext ex_cfg (Inr ex_data) 100 (Search None) ex_cached)) = 0)"
proof -
  have a: "\<not> cached_data_fresh (MAX_CACHE_AGE ex_cfg) 601 ex_world \<and> \<not> is_running ex_world"
    by code_simp
  have b: "is_running ex_busy" by code_simp
  have c: "cached_data_fresh (MAX_CACHE_AGE ex_cfg) 100 ex_cached \<and> \<not> is_running ex_cached"
    by code_simp
  have v: "launched ex_world = [] \<and> launched ex_busy = [] \<and> launched ex_cached = []
      \<and> rerun ex_cached = 0 \<and> ext_argv0 ex_ext = ''video-conferences.py''"
    by (simp add: ex_world_def ex_busy_def ex_cached_def ex_ext_def)
  from a search_starts_one_refresh [of ex_cfg 601 ex_world ex_ext "Inr ex_data" None]
  have A: "launched (snd (main ex_ext ex_cfg (Inr ex_data) 601 (Search None) ex_world))
          = launched ex_world @ [ [ext_argv0 ex_ext, ''--reload''] ]
      \<and> rerun (snd (main ex_ext ex_cfg (Inr ex_data) 601 (Search None) ex_world)) = 2 / 10"
    by (simp only: simp_thms)
  from b search_starts_one_refresh [of ex_cfg 601 ex_busy ex_ext "Inr ex_data" None]
  have B: "launched (snd (main ex_ext ex_cfg (Inr ex_data) 601 (Search None) ex_busy))
          = launched ex_busy
      \<and> rerun (snd (main ex_ext ex_cfg (Inr ex_data) 601 (Search None) ex_busy)) = 2 / 10"
    by (simp only: simp_thms)
  from c search_starts_one_refresh [of ex_cfg 100 ex_cached ex_ext "Inr ex_data" None]
  have C: "launched (snd (main ex_ext ex_cfg (Inr ex_data) 100 (Search None) ex_cached))
          = launched ex_cached
      \<and> rerun (snd (main ex_ext ex_cfg (Inr ex_data) 100 (Search None) ex_cached))
          = rerun ex_cached"
    by (simp only: simp_thms)
  from a b c A B C v show ?thesis by simp
qed

lemma add_event_items_reload:
  "reload_item \<in> set (items (snd (add_event_items ext ic ds w))) \<longleftrightarrow> reload_item \<in> set (items w)"
proof (induction ds arbitrary: w)
  case Nil
  show ?case by simp
next
  case (Cons d ds)
  show ?case
  proof (cases "get_icon (ext_hash ext) ic (colour d) None (disk w)")
    case (Pair r fs)
    show ?thesis
    proof (cases r)
      case (Inl e)
      with Pair show ?thesis by simp
    next
      case (Inr p)
      have "reload_item \<noteq> \<lparr>item_title = title d, item_subtitle = subtitle_of ext d,
                       item_arg = Some (url d), item_valid = True, item_icon = icon_of p,
                       item_vars = [(''calendar_name'', calendar d), (''event_id'', uid d)]\<rparr>"
        by (simp add: reload_item_def)
      with Pair Inr show ?thesis by (simp add: Cons.IH add_item_def)
    qed
  qed
qed

lemma tail_reload:
  "reload_item \<in> set (items (send_feedback (warn_empty t w))) \<longleftrightarrow> reload_item \<in> set (items w)"
  by (auto simp: send_feedback_def warn_empty_def add_item_def reload_item_def)




text \<open>
  C8, as the code has it. When a dataset with an event list and without an error message
  is cached and the search runs to its end, the result holds the item \<open>Reload Events\<close>
  exactly when the query has at least two characters and is a prefix of the word
  \<open>reload\<close>.
\<close>

theorem reload_item_iff:
  assumes "cache w = Some (d, t)" and "events d = Some evs" and "or_else (error d) [] = []"
    and "reload_item \<notin> set (items w)"
    and "fst (main ext cfg fetched now (Search (Some q)) w) = Inr ()"
  shows "reload_item \<in> set (items (snd (main ext cfg fetched now (Search (Some q)) w)))
     \<longleftrightarrow> 1 < length q \<and> prefix q ''reload''"
proof -
  let ?ic = "Icons (ext_cachefile ext ''icons'')"
  let ?start = "\<not> cached_data_fresh (MAX_CACHE_AGE cfg) now w \<and> \<not> is_running w"
  let ?w1 = "if ?start then run_in_background [ext_argv0 ext, ''--reload''] w else w"
  define w2 where "w2 = (if is_running w \<or> ?start then ?w1\<lparr>rerun := 2 / 10\<rparr> else ?w1)"
  have c2: "cache w2 = Some (d, t)" and i2: "items w2 = items w"
    using assms(1) by (simp_all add: w2_def run_in_background_def)
  have q: "or_else (Some q) [] = q" by (simp add: or_else_def)
  let ?kept = "filter_events cfg now evs"
  let ?shown = "if q \<noteq> [] then ext_filter ext q ?kept else ?kept"
  obtain x w3 where a: "add_event_items ext ?ic ?shown w2 = (x, w3)"
    by (cases "add_event_items ext ?ic ?shown w2")
  have m: "main ext cfg fetched now (Search (Some q)) w =
      (case x of Inl e \<Rightarrow> (Inl e, w3)
       | Inr u \<Rightarrow> (Inr (), send_feedback (warn_empty
             (if q \<noteq> [] then ''No Matching Events'' else ''No Video Conferences'')
             (if length q > 1 \<and> prefix q ''reload'' then add_item reload_item w3 else w3))))"
    unfolding main_def args.case q search_events_def Let_def w2_def [symmetric]
    using c2 assms(2,3) a by (simp add: cached_data_def)
  from assms(5) m obtain u where x: "x = Inr u" by (cases x) simp_all
  have r3: "reload_item \<notin> set (items w3)"
    using add_event_items_reload [of ext ?ic ?shown w2] a i2 assms(4) by simp
  show ?thesis
    unfolding m x using r3 by (simp add: tail_reload add_item_def)
qed

theorem reload_item_iff_witness:
  "cache ex_cached = Some (ex_data, 0) \<and> events ex_data = Some [ex_event]
   \<and> or_else (error ex_data) [] = [] \<and> reload_item \<notin> set (items ex_cached)
   \<and> fst (main ex_ext ex_cfg (Inr ex_data) 100 (Search (Some ''re'')) ex_cached) = Inr ()
   \<and> reload_item \<in> set (items (snd (main ex_ext ex_cfg (Inr ex_data) 100 (Search (Some ''re'')) ex_cached)))"
proof -
  have a: "cache ex_cached = Some (ex_data, 0)" by (simp add: ex_cached_def ex_world_def)
  have b: "events ex_data = Some [ex_event]" by (simp add: ex_data_def)
  have c: "or_else (error ex_data) [] = []" by (simp add: ex_data_def or_else_def)
  have d: "reload_item \<notin> set (items ex_cached)" by (simp add: ex_cached_def ex_world_def)
  have e: "fst (main ex_ext ex_cfg (Inr ex_data) 100 (Search (Some ''re'')) ex_cached) = Inr ()"
    by code_simp
  have q: "1 < length ''re'' \<and> prefix ''re'' ''reload''" by simp
  from reload_item_iff [OF a b c d e] q
  have "reload_item \<in> set (items (snd (main ex_ext ex_cfg (Inr ex_data) 100 (Search (Some ''re'')) ex_cached)))"
    by (simp only: simp_thms)
  with a b c d e show ?thesis by (intro conjI)
qed

text \<open>
  C8, as the claim states it: every prefix of \<open>reload\<close> that is not empty would bring
  the item up. The query \<open>r\<close> is such a prefix, and with the example dataset cached and
  fresh the search ends normally without the item.
\<close>

theorem reload_item_single_letter_counterexample:
  "''r'' \<noteq> [] \<and> prefix ''r'' ''reload''
   \<and> fst (main ex_ext ex_cfg (Inr ex_data) 100 (Search (Some ''r'')) ex_cached) = Inr ()
   \<and> reload_item \<notin> set (items (snd (main ex_ext ex_cfg (Inr ex_data) 100 (Search (Some ''r'')) ex_cached)))"
  by code_simp

end
